theory Spec2Isabelle
  imports Main "HOL-Library.Word" "HOL-Library.Sublist"
begin

unbundle bit_operations_syntax

section \<open>Machine types\<close>

type_synonym u8 = "8 word"
type_synonym u32 = "32 word"
type_synonym u64 = "64 word"

text \<open>
  A \<open>char*\<close> into a page buffer is an address. Page buffers come from the system
  allocator and never straddle the end of the address space, so addresses are natural
  numbers and pointer arithmetic is addition; the \<open>uint32_t\<close> byte counts keep their
  32-bit wrap-around.
\<close>

type_synonym addr = nat

section \<open>utils.h\<close>

subsection \<open>RoundUp\<close>

text \<open>
  \<open>RoundUp(value, to)\<close> computes \<open>value % to\<close>; with \<open>to = 0\<close> the division traps,
  which is the result \<open>None\<close>.
\<close>

definition RoundUp :: "u32 \<Rightarrow> u32 \<Rightarrow> u32 option" where
  "RoundUp v to =
     (if to = 0 then None
      else if v mod to = 0 then Some v
      else Some (v + to - v mod to))"

subsection \<open>PowerOfTwo\<close>







subsection \<open>ComputeHash\<close>

text \<open>
  \<open>ComputeHash(const char* key, uint32_t length)\<close>. The key is the memory at the
  pointer, a function from the index to the byte. \<open>key[i]\<close> has type \<open>char\<close>, which the
  x86-64 ABI this code generator targets makes a signed type: \<open>hash += key[i]\<close>
  promotes the byte to \<open>int\<close> with its sign and then converts it to \<open>uint32_t\<close>,
  which is \<open>scast\<close>.
\<close>

definition hash_step :: "u32 \<Rightarrow> u32 \<Rightarrow> u32" where
  "hash_step hash c =
     (let h1 = hash + c;
          h2 = h1 + push_bit 10 h1
      in h2 XOR drop_bit 6 h2)"

definition hash_mixup :: "u32 \<Rightarrow> u32" where
  "hash_mixup hash =
     (let h1 = hash + push_bit 3 hash;
          h2 = h1 XOR drop_bit 11 h1
      in h2 + push_bit 15 h2)"

function ComputeHash_loop :: "(nat \<Rightarrow> u8) \<Rightarrow> u32 \<Rightarrow> u32 \<Rightarrow> u32 \<Rightarrow> u32" where
  "ComputeHash_loop key len i hash =
     (if i < len then ComputeHash_loop key len (i + 1) (hash_step hash (scast (key (unat i))))
      else hash)"
  by pat_completeness auto
termination
proof (relation "measure (\<lambda>(key, len, i, hash). unat len - unat i)")
  show "wf (measure (\<lambda>(key :: nat \<Rightarrow> u8, len :: u32, i :: u32, hash :: u32). unat len - unat i))"
    by simp
next
  fix key :: "nat \<Rightarrow> u8" and len i hash :: u32
  assume lt: "i < len"
  then have "unat i < unat len" by (simp add: word_less_nat_alt)
  moreover have "unat len < 2 ^ 32" using unsigned_less [of len, where 'a = nat] by simp
  ultimately have "unat (i + 1) = unat i + 1"
    by (simp add: unat_word_ariths)
  with \<open>unat i < unat len\<close>
  show "((key, len, i + 1, hash_step hash (scast (key (unat i)))), (key, len, i, hash))
          \<in> measure (\<lambda>(key, len, i, hash). unat len - unat i)"
    by simp
qed

declare ComputeHash_loop.simps [simp del]

definition ComputeHash :: "(nat \<Rightarrow> u8) \<Rightarrow> u32 \<Rightarrow> u32" where
  "ComputeHash key len = hash_mixup (ComputeHash_loop key len 0 0)"

section \<open>heap.h, heap.cc: pages and spaces\<close>

text \<open>
  \<open>Space::Page\<close> with its members \<open>data_\<close>, \<open>top_\<close> and \<open>limit_\<close> (field names
  carry the prefix \<open>page_\<close> here): the buffer's address, the bump pointer and
  \<open>data_ + size\<close>. The address that \<open>new char[size]\<close> returns is the system
  allocator's choice and is an argument of the constructor here.
\<close>

record Page =
  page_data :: addr
  page_top :: addr
  page_limit :: addr

definition Page_new :: "addr \<Rightarrow> u32 \<Rightarrow> Page" where
  "Page_new buf sz = \<lparr> page_data = buf, page_top = buf, page_limit = buf + unat sz \<rparr>"

text \<open>
  \<open>Space\<close> (field names carry the prefix \<open>sp_\<close>): \<open>pages_\<close> is the list from head
  to tail (\<open>Push\<close> appends). The members \<open>top_\<close> and \<open>limit_\<close> of the space point at
  the fields of one page; \<open>selected\<close> is the position of that page in \<open>pages_\<close>. A
  position outside the list is a dangling pointer, and reading through it is the result
  \<open>None\<close>. \<open>size_\<close> and the limit that \<open>size_limit()\<close> returns are 32-bit members.
\<close>

record Space =
  sp_pages :: "Page list"
  selected :: nat
  sp_page_size :: u32
  sp_size :: u32
  sp_size_limit :: u32

definition current_page :: "Space \<Rightarrow> Page option" where
  "current_page sp =
     (if selected sp < length (sp_pages sp) then Some (sp_pages sp ! selected sp) else None)"

definition select :: "nat \<Rightarrow> Space \<Rightarrow> Space" where
  "select i sp = sp\<lparr> selected := i \<rparr>"

text \<open>\<open>*top_ + even_bytes <= *limit_\<close> on the selected page.\<close>

definition fits :: "Page \<Rightarrow> u32 \<Rightarrow> bool" where
  "fits p even_bytes \<longleftrightarrow> page_top p + unat even_bytes \<le> page_limit p"

definition AddPage :: "u32 \<Rightarrow> addr \<Rightarrow> Space \<Rightarrow> Space option" where
  "AddPage sz buf sp =
     (case RoundUp sz (sp_page_size sp) of
        None \<Rightarrow> None
      | Some real_size \<Rightarrow>
          Some (select (length (sp_pages sp))
                  (sp\<lparr> sp_pages := sp_pages sp @ [Page_new buf real_size],
                       sp_size := sp_size sp + real_size \<rparr>)))"

text \<open>
  The values \<open>Heap::kGCNewSpace\<close> and \<open>Heap::kGCOldSpace\<close> that \<open>needs_gc\<close> receives,
  and the initial value of the flag.
\<close>

datatype GCType = kGCNone | kGCNewSpace | kGCOldSpace

text \<open>Which of the heap's two spaces \<open>this\<close> is.\<close>

datatype SpaceKind = NewSpace | OldSpace

record Heap =
  new_space :: Space
  old_space :: Space
  needs_gc :: GCType

definition space :: "Heap \<Rightarrow> SpaceKind \<Rightarrow> Space" where
  "space h k = (case k of NewSpace \<Rightarrow> new_space h | OldSpace \<Rightarrow> old_space h)"

definition set_space :: "SpaceKind \<Rightarrow> Space \<Rightarrow> Heap \<Rightarrow> Heap" where
  "set_space k sp h =
     (case k of NewSpace \<Rightarrow> h\<lparr> new_space := sp \<rparr> | OldSpace \<Rightarrow> h\<lparr> old_space := sp \<rparr>)"

text \<open>
  The loop of \<open>Space::Allocate\<close> that goes through the pages from the head:
  \<open>for (; *top_ + even_bytes > *limit_ && item != NULL; item = item->next()) select(item->value())\<close>.
  The item is its position in the list, \<open>NULL\<close> the position after the tail. The result
  is the space with the page selected last, and the final item.
\<close>

function find_gap :: "u32 \<Rightarrow> nat \<Rightarrow> Space \<Rightarrow> (Space \<times> nat) option" where
  "find_gap even_bytes item sp =
     (case current_page sp of
        None \<Rightarrow> None
      | Some cur \<Rightarrow>
          if \<not> fits cur even_bytes \<and> item < length (sp_pages sp)
          then find_gap even_bytes (item + 1) (select item sp)
          else Some (sp, item))"
  by pat_completeness auto
termination
  by (relation "measure (\<lambda>(even_bytes, item, sp). length (sp_pages sp) - item)")
     (auto simp: select_def)

declare find_gap.simps [simp del]

text \<open>The last two statements: \<open>result = *top_; *top_ += even_bytes\<close>.\<close>

definition bump :: "u32 \<Rightarrow> Space \<Rightarrow> (addr \<times> Space) option" where
  "bump even_bytes sp =
     (case current_page sp of
        None \<Rightarrow> None
      | Some cur \<Rightarrow>
          Some (page_top cur,
                sp\<lparr> sp_pages := (sp_pages sp)[selected sp := cur\<lparr> page_top := page_top cur + unat even_bytes \<rparr>] \<rparr>))"

text \<open>
  \<open>Space::Allocate(bytes)\<close> on the space \<open>this\<close> of the heap. \<open>buf\<close> is the address
  the system allocator gives the buffer of a new page, if one is made.
\<close>

definition Allocate :: "SpaceKind \<Rightarrow> u32 \<Rightarrow> addr \<Rightarrow> Heap \<Rightarrow> (addr \<times> Heap) option" where
  "Allocate this bytes buf h =
     (let sp = space h this;
          even_bytes = bytes + (bytes AND 1)
      in case current_page sp of
           None \<Rightarrow> None
         | Some cur \<Rightarrow>
             if fits cur even_bytes
             then map_option (\<lambda>(r, sp'). (r, set_space this sp' h)) (bump even_bytes sp)
             else
               (case find_gap even_bytes 0 sp of
                  None \<Rightarrow> None
                | Some (sp1, item) \<Rightarrow>
                    if item \<ge> length (sp_pages sp1)
                    then
                      (let h1 = (if sp_size sp1 > sp_size_limit sp1
                                 then h\<lparr> needs_gc :=
                                          (if this = NewSpace then kGCNewSpace else kGCOldSpace) \<rparr>
                                 else h)
                       in case AddPage even_bytes buf sp1 of
                            None \<Rightarrow> None
                          | Some sp2 \<Rightarrow>
                              map_option (\<lambda>(r, sp'). (r, set_space this sp' h1))
                                (bump even_bytes sp2))
                    else map_option (\<lambda>(r, sp'). (r, set_space this sp' h)) (bump even_bytes sp1)))"

text \<open>
  The constructors. \<open>Space::Space\<close> pushes one page of \<open>page_size\<close> bytes, selects it
  and leaves \<open>size_\<close> at 0; \<open>lim\<close> is what \<open>compute_size_limit()\<close> stores.
  \<open>Heap::Heap\<close> makes the two spaces with the same page size and clears the flag.
\<close>

definition Space_new :: "u32 \<Rightarrow> addr \<Rightarrow> u32 \<Rightarrow> Space" where
  "Space_new page_size buf lim =
     \<lparr> sp_pages = [Page_new buf page_size], selected = 0, sp_page_size = page_size,
       sp_size = 0, sp_size_limit = lim \<rparr>"

definition Heap_new :: "u32 \<Rightarrow> addr \<Rightarrow> addr \<Rightarrow> u32 \<Rightarrow> Heap" where
  "Heap_new page_size buf_new buf_old lim =
     \<lparr> new_space = Space_new page_size buf_new lim,
       old_space = Space_new page_size buf_old lim,
       needs_gc = kGCNone \<rparr>"

text \<open>
  A space is well formed when its selected page is one of its pages and no page's bump
  pointer lies below its buffer.
\<close>

definition space_ok :: "Space \<Rightarrow> bool" where
  "space_ok sp \<longleftrightarrow>
     selected sp < length (sp_pages sp) \<and>
     (\<forall>p \<in> set (sp_pages sp). page_data p \<le> page_top p)"

section \<open>heap.cc: strings\<close>

text \<open>
  The heap is byte-addressed memory, little-endian as on x86-64. A write is recorded
  with its address and value, so that a call's effect on memory can be read off.
\<close>

type_synonym memory = "u64 \<Rightarrow> u8"

definition load32 :: "memory \<Rightarrow> u64 \<Rightarrow> u32" where
  "load32 m a =
     ucast (m a) OR push_bit 8 (ucast (m (a + 1))) OR
     push_bit 16 (ucast (m (a + 2))) OR push_bit 24 (ucast (m (a + 3)))"

definition store32 :: "memory \<Rightarrow> u64 \<Rightarrow> u32 \<Rightarrow> memory" where
  "store32 m a v =
     m(a := ucast v, a + 1 := ucast (drop_bit 8 v),
       a + 2 := ucast (drop_bit 16 v), a + 3 := ucast (drop_bit 24 v))"

definition load64 :: "memory \<Rightarrow> u64 \<Rightarrow> u64" where
  "load64 m a = ucast (load32 m a) OR push_bit 32 (ucast (load32 m (a + 4)))"

definition store64 :: "memory \<Rightarrow> u64 \<Rightarrow> u64 \<Rightarrow> memory" where
  "store64 m a v = store32 (store32 m a (ucast v)) (a + 4) (ucast (drop_bit 32 v))"

datatype mem_write = Write32 u64 u32 | Write64 u64 u64

text \<open>
  The layout of a string object: the hash at \<open>kHashOffset\<close>, the length at
  \<open>kLengthOffset\<close>, the bytes from \<open>kValueOffset\<close> on.
\<close>

definition kHashOffset :: u64 where "kHashOffset = 8"
definition kLengthOffset :: u64 where "kLengthOffset = 16"
definition kValueOffset :: u64 where "kValueOffset = 24"

definition HString_Value :: "u64 \<Rightarrow> u64" where
  "HString_Value addr = addr + kValueOffset"

definition HString_Length :: "memory \<Rightarrow> u64 \<Rightarrow> u32" where
  "HString_Length m addr = load32 m (addr + kLengthOffset)"

text \<open>
  \<open>HString::Hash(addr)\<close>: the hash returned, the memory afterwards, and the writes the
  call made.
\<close>

definition HString_Hash :: "u64 \<Rightarrow> memory \<Rightarrow> u32 \<times> memory \<times> mem_write list" where
  "HString_Hash addr m =
     (let hash_addr = addr + kHashOffset;
          hash = load32 m hash_addr
      in if hash = 0
         then
           (let hash' = ComputeHash (\<lambda>i. m (HString_Value addr + of_nat i)) (HString_Length m addr)
            in (hash', store32 m hash_addr hash', [Write32 hash_addr hash']))
         else (hash, m, []))"

text \<open>
  \<open>HString::New(heap, tenure, value, length)\<close> once the object has its address: the
  hash and the length are stored as 64-bit fields and the bytes copied behind them.
\<close>

fun memcpy_bytes :: "memory \<Rightarrow> u64 \<Rightarrow> u8 list \<Rightarrow> memory" where
  "memcpy_bytes m a [] = m"
| "memcpy_bytes m a (b # bs) = memcpy_bytes (m(a := b)) (a + 1) bs"

definition HString_init :: "u64 \<Rightarrow> u8 list \<Rightarrow> memory \<Rightarrow> memory" where
  "HString_init addr bytes m =
     memcpy_bytes
       (store64 (store64 m (addr + kHashOffset) 0) (addr + kLengthOffset) (of_nat (length bytes)))
       (addr + kValueOffset) bytes"

section \<open>heap.cc: arrays\<close>

text \<open>
  \<open>HArray::Length\<close> reads and writes the \<open>int64_t\<close> at \<open>kLengthOffset\<close> and reads
  the array's elements through \<open>HObject::LookupProperty(NULL, obj, key, 0)\<close>, whose body
  (\<open>RuntimeLookupProperty\<close>) is not part of these sources. An array is therefore its
  length field together with \<open>slot_at\<close>, the word found at the slot that this lookup
  returns for a key; with \<open>insert = 0\<close> the lookup changes nothing. The length is an
  \<open>int\<close>: starting from a length between 0 and \<open>2^63\<close> the loop only counts down to
  \<open>-1\<close>, inside the range of \<open>int64_t\<close>.
\<close>

record HArray =
  length_field :: int
  slot_at :: "u64 \<Rightarrow> u64"

text \<open>\<open>HNil::New()\<close> is the nil word, \<open>HNumber::Tag(v)\<close> the unboxed integer \<open>v << 1 | 1\<close>.\<close>

definition HNil_New :: u64 where
  "HNil_New = 0"

definition HNumber_Tag :: "int \<Rightarrow> u64" where
  "HNumber_Tag v = push_bit 1 (word_of_int v) OR 1"

text \<open>
  The loop \<open>do { if (shrinked < 0) break; shrinked--; ... } while (*slot == HNil::New())\<close>;
  the result is \<open>shrinked\<close> when the loop is left.
\<close>

function shrink_loop :: "HArray \<Rightarrow> int \<Rightarrow> int" where
  "shrink_loop obj shrinked =
     (if shrinked < 0 then shrinked
      else if slot_at obj (HNumber_Tag (shrinked - 1)) = HNil_New
           then shrink_loop obj (shrinked - 1)
           else shrinked - 1)"
  by pat_completeness auto
termination
  by (relation "measure (\<lambda>(obj, shrinked). nat (shrinked + 1))") auto

declare shrink_loop.simps [simp del]

definition HArray_Length :: "HArray \<Rightarrow> bool \<Rightarrow> int \<times> HArray" where
  "HArray_Length obj shrink =
     (let result = length_field obj
      in if shrink
         then
           (let shrinked = shrink_loop obj result
            in if result \<noteq> shrinked - 1
               then (shrinked + 1, obj\<lparr> length_field := shrinked + 1 \<rparr>)
               else (result, obj))
         else (result, obj))"

section \<open>utils.h: List, and heap.cc: weak references\<close>

text \<open>
  \<open>List<T, ItemParent>\<close> is a doubly linked list of \<open>Item\<close> objects allocated one by
  one. The items live in a store from addresses to items; \<open>delete\<close> takes an item out
  of the store, and reading an item that is no longer there is a fault. The value of an
  item is kept in the item itself, so \<open>delete item->value()\<close> goes with the item.
\<close>

type_synonym ptr = nat

datatype fault = UseAfterFree

record 'a Item =
  item_value :: 'a
  item_prev :: "ptr option"
  item_next :: "ptr option"

record 'a UtilsList =
  items :: "ptr \<Rightarrow> 'a Item option"
  list_head :: "ptr option"
  list_current :: "ptr option"
  list_length :: u32
  allocated :: bool

definition List_new :: "'a UtilsList" where
  "List_new =
     \<lparr> items = (\<lambda>_. None), list_head = None, list_current = None, list_length = 0,
       allocated = False \<rparr>"

text \<open>\<open>Push(item)\<close>, with the address \<open>a\<close> of the new \<open>Item\<close>.\<close>

definition Push :: "'a \<Rightarrow> ptr \<Rightarrow> 'a UtilsList \<Rightarrow> fault + 'a UtilsList" where
  "Push v a l =
     (let next = \<lparr> item_value = v, item_prev = list_current l, item_next = None \<rparr>;
          st = (items l)(a \<mapsto> next)
      in case list_head l of
           None \<Rightarrow>
             Inr (l\<lparr> items := st, list_head := Some a, list_current := Some a,
                      list_length := list_length l + 1 \<rparr>)
         | Some h \<Rightarrow>
             (case list_current l of
                None \<Rightarrow> Inl UseAfterFree
              | Some c \<Rightarrow>
                  (case st c of
                     None \<Rightarrow> Inl UseAfterFree
                   | Some ci \<Rightarrow>
                       Inr (l\<lparr> items := st(c \<mapsto> ci\<lparr> item_next := Some a \<rparr>),
                                list_current := Some a,
                                list_length := list_length l + 1 \<rparr>))))"

text \<open>\<open>Item::remove()\<close>: unlink the item from its neighbours.\<close>

definition Item_remove ::
  "'a Item \<Rightarrow> (ptr \<Rightarrow> 'a Item option) \<Rightarrow> fault + (ptr \<Rightarrow> 'a Item option)" where
  "Item_remove it st =
     (case (case item_prev it of
              None \<Rightarrow> Inr st
            | Some p \<Rightarrow>
                (case st p of
                   None \<Rightarrow> Inl UseAfterFree
                 | Some pi \<Rightarrow> Inr (st(p \<mapsto> pi\<lparr> item_next := item_next it \<rparr>)))) of
        Inl f \<Rightarrow> Inl f
      | Inr st1 \<Rightarrow>
          (case item_next it of
             None \<Rightarrow> Inr st1
           | Some n \<Rightarrow>
               (case st1 n of
                  None \<Rightarrow> Inl UseAfterFree
                | Some ni \<Rightarrow> Inr (st1(n \<mapsto> ni\<lparr> item_prev := item_prev it \<rparr>)))))"

text \<open>\<open>List::Remove(item)\<close>.\<close>

definition Remove :: "ptr \<Rightarrow> 'a UtilsList \<Rightarrow> fault + 'a UtilsList" where
  "Remove item l =
     (case items l item of
        None \<Rightarrow> Inl UseAfterFree
      | Some it \<Rightarrow>
          (let l1 = (if list_current l = Some item then l\<lparr> list_current := item_prev it \<rparr> else l);
               l2 = (if list_head l1 = Some item then l1\<lparr> list_head := item_prev it \<rparr> else l1)
           in case Item_remove it (items l2) of
                Inl f \<Rightarrow> Inl f
              | Inr st \<Rightarrow>
                  Inr (l2\<lparr> items := st(item := None), list_length := list_length l2 - 1 \<rparr>)))"

text \<open>
  A weak reference is a value and its callback. \<open>Heap::AddWeak\<close> pushes one on the
  heap's list of weak references.
\<close>

record HValueWeakRef =
  weak_value :: u64
  weak_callback :: nat

definition AddWeak ::
  "u64 \<Rightarrow> nat \<Rightarrow> ptr \<Rightarrow> HValueWeakRef UtilsList \<Rightarrow> fault + HValueWeakRef UtilsList" where
  "AddWeak v callback a weak_references =
     Push \<lparr> weak_value = v, weak_callback = callback \<rparr> a weak_references"

text \<open>
  \<open>Heap::RemoveWeak(value)\<close>. The loop is
  \<open>while (tail != NULL) { if (tail->value()->value() == value) weak_references()->Remove(tail); }\<close>:
  its body never assigns \<open>tail\<close>. A loop that does not end has no result, which is the
  value \<open>None\<close>; a result is the list afterwards or the fault that stopped the call.
\<close>

partial_function (option) RemoveWeak_loop ::
  "ptr option \<Rightarrow> u64 \<Rightarrow> HValueWeakRef UtilsList \<Rightarrow> (fault + HValueWeakRef UtilsList) option"
where
  "RemoveWeak_loop tail v weak_references =
     (case tail of
        None \<Rightarrow> Some (Inr weak_references)
      | Some t \<Rightarrow>
          (case items weak_references t of
             None \<Rightarrow> Some (Inl UseAfterFree)
           | Some it \<Rightarrow>
               if weak_value (item_value it) = v
               then (case Remove t weak_references of
                       Inl f \<Rightarrow> Some (Inl f)
                     | Inr l \<Rightarrow> RemoveWeak_loop tail v l)
               else RemoveWeak_loop tail v weak_references))"

declare RemoveWeak_loop.simps [code]

definition RemoveWeak ::
  "u64 \<Rightarrow> HValueWeakRef UtilsList \<Rightarrow> (fault + HValueWeakRef UtilsList) option" where
  "RemoveWeak v weak_references = RemoveWeak_loop (list_current weak_references) v weak_references"

section \<open>x64: registers and operands\<close>

text \<open>
  The registers the generator names. \<open>scratch\<close> and \<open>root_reg\<close> are the two
  registers the assembler reserves under these names, \<open>reg_nil\<close> stands for "no
  register". An operand is a base register and a displacement.
\<close>

datatype Register =
    rax | rbx | rcx | rdx | rsi | rdi | rbp | rsp
  | r8 | r9 | r10 | r11 | r12 | r13 | r14 | r15
  | scratch | root_reg | reg_nil

datatype Operand = Operand (base: Register) (disp: int)

section \<open>macroassembler-x64.cc: the code of StringHash, executed\<close>

text \<open>
  The machine state that the emitted code of \<open>Masm::StringHash\<close> works on: the 64-bit
  registers, the heap memory and the machine stack (kept apart from the heap). Each
  instruction the routine emits is read as its effect on this state; \<open>addl\<close>, \<open>shll\<close>,
  \<open>shrl\<close> and \<open>xorl\<close> work on the low 32 bits and clear the upper half of the
  destination, \<open>movzxb\<close> loads one byte and zero-extends it.
\<close>

record X64 =
  regs :: "Register \<Rightarrow> u64"
  mem :: memory
  stack :: "u64 list"

definition ea :: "X64 \<Rightarrow> Operand \<Rightarrow> u64" where
  "ea s op = regs s (base op) + word_of_int (disp op)"

definition set_reg :: "Register \<Rightarrow> u64 \<Rightarrow> X64 \<Rightarrow> X64" where
  "set_reg r v s = s\<lparr> regs := (regs s)(r := v) \<rparr>"

definition x_movq_rm :: "Register \<Rightarrow> Operand \<Rightarrow> X64 \<Rightarrow> X64" where
  "x_movq_rm dst src s = set_reg dst (load64 (mem s) (ea s src)) s"

definition x_movq_mr :: "Operand \<Rightarrow> Register \<Rightarrow> X64 \<Rightarrow> X64" where
  "x_movq_mr dst src s = s\<lparr> mem := store64 (mem s) (ea s dst) (regs s src) \<rparr>"

definition x_movq_rr :: "Register \<Rightarrow> Register \<Rightarrow> X64 \<Rightarrow> X64" where
  "x_movq_rr dst src s = set_reg dst (regs s src) s"

definition x_xorq :: "Register \<Rightarrow> Register \<Rightarrow> X64 \<Rightarrow> X64" where
  "x_xorq dst src s = set_reg dst (regs s dst XOR regs s src) s"

definition x_addq_ri :: "Register \<Rightarrow> u64 \<Rightarrow> X64 \<Rightarrow> X64" where
  "x_addq_ri dst imm s = set_reg dst (regs s dst + imm) s"

definition x_movzxb :: "Register \<Rightarrow> Operand \<Rightarrow> X64 \<Rightarrow> X64" where
  "x_movzxb dst src s = set_reg dst (ucast (mem s (ea s src))) s"

definition low32 :: "u64 \<Rightarrow> u32" where
  "low32 v = ucast v"

definition x_addl :: "Register \<Rightarrow> Register \<Rightarrow> X64 \<Rightarrow> X64" where
  "x_addl dst src s = set_reg dst (ucast (low32 (regs s dst) + low32 (regs s src))) s"

definition x_xorl :: "Register \<Rightarrow> Register \<Rightarrow> X64 \<Rightarrow> X64" where
  "x_xorl dst src s = set_reg dst (ucast (low32 (regs s dst) XOR low32 (regs s src))) s"

definition x_shll :: "Register \<Rightarrow> nat \<Rightarrow> X64 \<Rightarrow> X64" where
  "x_shll dst n s = set_reg dst (ucast (push_bit n (low32 (regs s dst)))) s"

definition x_shrl :: "Register \<Rightarrow> nat \<Rightarrow> X64 \<Rightarrow> X64" where
  "x_shrl dst n s = set_reg dst (ucast (drop_bit n (low32 (regs s dst)))) s"

definition x_dec :: "Register \<Rightarrow> X64 \<Rightarrow> X64" where
  "x_dec r s = set_reg r (regs s r - 1) s"

definition x_inc :: "Register \<Rightarrow> X64 \<Rightarrow> X64" where
  "x_inc r s = set_reg r (regs s r + 1) s"

definition x_push :: "Register \<Rightarrow> X64 \<Rightarrow> X64" where
  "x_push r s = s\<lparr> stack := regs s r # stack s \<rparr>"

definition x_pop :: "Register \<Rightarrow> X64 \<Rightarrow> X64 option" where
  "x_pop r s =
     (case stack s of
        [] \<Rightarrow> None
      | v # rest \<Rightarrow> Some (set_reg r v (s\<lparr> stack := rest \<rparr>)))"

text \<open>A straight-line sequence of instructions runs from left to right.\<close>

definition run :: "(X64 \<Rightarrow> X64) list \<Rightarrow> X64 \<Rightarrow> X64" where
  "run instrs s = fold (\<lambda>i s'. i s') instrs s"

text \<open>
  The body of the loop, from \<open>bind(&loop_start)\<close> to \<open>inc(str)\<close>; inside
  \<open>StringHash\<close> the name \<open>scratch\<close> is \<open>rsi\<close>.
\<close>

definition StringHash_body :: "Register \<Rightarrow> Register \<Rightarrow> X64 \<Rightarrow> X64" where
  "StringHash_body str result =
     run [x_movzxb rsi (Operand str 0), x_addl result rsi,
          x_movq_rr rsi result, x_shll result 10, x_addl result rsi,
          x_movq_rr rsi result, x_shrl result 6, x_xorl result rsi,
          x_dec rcx, x_inc str]"

text \<open>
  The loop: \<open>jmp(&loop_cond)\<close>, then the body as long as \<open>cmpq(rcx, 0)\<close> finds
  \<open>rcx\<close> not zero. Whether it ends depends on the registers chosen, so a run that
  does not end is the result \<open>None\<close>.
\<close>

partial_function (option) StringHash_loop :: "Register \<Rightarrow> Register \<Rightarrow> X64 \<Rightarrow> X64 option" where
  "StringHash_loop str result s =
     (if regs s rcx \<noteq> 0 then StringHash_loop str result (StringHash_body str result s)
      else Some s)"

declare StringHash_loop.simps [code]

text \<open>The mixup after the loop.\<close>

definition StringHash_mixup :: "Register \<Rightarrow> X64 \<Rightarrow> X64" where
  "StringHash_mixup result =
     run [x_movq_rr rsi result, x_shll result 3, x_addl result rsi,
          x_movq_rr rsi result, x_shrl result 11, x_xorl result rsi,
          x_movq_rr rsi result, x_shll result 15, x_addl result rsi]"

text \<open>
  The whole routine for the registers \<open>str\<close> and \<open>result\<close>. The generator asserts
  that \<open>str\<close> is not \<open>rcx\<close>, so for \<open>rcx\<close> there is no code to run; that and a
  pop from an empty stack are \<open>None\<close> as well.
\<close>

definition StringHash :: "Register \<Rightarrow> Register \<Rightarrow> X64 \<Rightarrow> X64 option" where
  "StringHash str result s =
     (if str = rcx then None
      else
        (let hash_field = Operand str (uint kHashOffset);
             s1 = x_movq_rm result hash_field s
         in if regs s1 result \<noteq> 0 then Some s1
            else
              (let s2 = (if result \<noteq> rcx then x_push rcx s1 else s1);
                   s6 = run [x_push str, x_push rsi,
                             x_xorq result result,
                             x_movq_rm rcx (Operand str (uint kLengthOffset)),
                             x_addq_ri str kValueOffset] s2
               in case StringHash_loop str result s6 of
                    None \<Rightarrow> None
                  | Some s7 \<Rightarrow>
                      (case x_pop rsi (StringHash_mixup result s7) of
                         None \<Rightarrow> None
                       | Some s8 \<Rightarrow>
                           (case x_pop str s8 of
                              None \<Rightarrow> None
                            | Some s9 \<Rightarrow>
                                (case (if result \<noteq> rcx then x_pop rcx s9 else Some s9) of
                                   None \<Rightarrow> None
                                 | Some s10 \<Rightarrow> Some (x_movq_mr hash_field result s10)))))))"

section \<open>ast.h: the nodes the generator visits\<close>

datatype AstType =
    kBlock | kBlockExpr | kScopeDecl | kMember | kValue | kMValue | kProperty | kAssign
  | kIf | kWhile | kBreak | kContinue | kReturn | kFunction | kPreInc | kPreDec | kNot
  | kPostInc | kPostDec | kObjectLiteral | kArrayLiteral
  | kName | kNumber | kString | kTrue | kFalse | kNil
  | kAdd | kSub | kDiv | kMul | kBAnd | kBOr | kBXor
  | kEq | kStrictEq | kNe | kStrictNe | kLt | kGt | kLe | kGe | kLOr | kLAnd
  | kNop

text \<open>
  An \<open>AstNode\<close> has its type, its lexeme, its byte offset in the source, its children
  and the two slot counts. The subclasses add their members: a \<open>FunctionLiteral\<close> its
  variable and arguments, an \<open>ObjectLiteral\<close> its keys and values; \<open>FAstSpill\<close> and
  \<open>FAstOperand\<close> are the generator's own nodes around a spill and an operand. A cast
  to a subclass that the node is not has no defined result.
\<close>

datatype AstNode =
  AstNode (type: AstType) (lexeme: string) (offset: u32) (children: "AstNode list")
          (stack_slots: u32) (context_slots: u32) (ext: AstExt)
and AstExt =
    Plain
  | FunctionLiteral (variable: "AstNode option") (args: "AstNode list")
  | ObjectLiteral (keys: "AstNode list") (vals: "AstNode list")
  | FAstSpill nat
  | FAstOperand Operand




section \<open>macroassembler-x64.cc: the code the macro assembler emits\<close>



datatype Stub = AllocateStub | CollectGarbageStub

datatype Immediate = Immediate u64 | StubAddress Stub | NeedsGCAddress


text \<open>
  The assembler itself is not part of these sources, so an emitted instruction is kept
  as the call that emitted it: the mnemonic and its arguments, which are a register, an
  immediate, a memory operand, or the operand of a spill slot (what \<open>SpillSlot(index, op)\<close>
  makes of \<open>op\<close>). \<open>Untag\<close>, \<open>TagNumber\<close> on a register, \<open>Push\<close> and \<open>Pop\<close> are the
  assembler's inline helpers of these names. A label is numbered when it is declared;
  \<open>bind\<close> marks its place in the code and emits no bytes.
\<close>

datatype Arg = R Register | I Immediate | M Operand | S nat

datatype Condition = kEq | kNe | kLt | kLe | kNoOverflow

type_synonym Label = nat

datatype Instr =
    push Arg | pop Arg
  | movq Arg Arg | addq Arg Arg | subq Arg Arg | xorq Arg Arg
  | cmpq Arg Arg | cmpb Arg Arg | shl Arg Arg | dec Arg
  | jmp Label | jmp_if Condition Label | bind Label
  | callq Arg | nop | emitb u8
  | UntagReg Register | TagNumberReg Register | PushReg Register | PopReg Register

datatype RelocType = kAbsolute | kValue
datatype RelocSize = kQuad | kLong

record RelocationInfo =
  reloc_type :: RelocType
  reloc_size :: RelocSize
  reloc_offset :: u32
  reloc_target :: u32

text \<open>
  The state of \<open>Masm\<close>: the code emitted so far, the byte offset \<open>offset_\<close>, the
  alignment counter \<open>align_\<close>, the spill bookkeeping, the relocations and the operand
  \<open>slot_\<close>. \<open>enc_len\<close> is the number of bytes the assembler's encoding of an
  instruction takes; \<open>nop\<close> and \<open>emitb\<close> emit one byte.
\<close>

record Masm =
  code :: "Instr list"
  enc_len :: "Instr \<Rightarrow> nat"
  masm_offset :: u32
  masm_align :: int
  spill_index :: nat
  spills :: nat
  spill_offset :: u32
  relocation_info :: "RelocationInfo list"
  spill_reloc :: "RelocationInfo option"
  masm_slot :: Operand
  labels :: nat

definition instr_len :: "'a Masm_scheme \<Rightarrow> Instr \<Rightarrow> nat" where
  "instr_len m i =
     (case i of nop \<Rightarrow> 1 | emitb b \<Rightarrow> 1 | bind l \<Rightarrow> 0 | _ \<Rightarrow> enc_len m i)"

definition emit :: "Instr \<Rightarrow> 'a Masm_scheme \<Rightarrow> 'a Masm_scheme" where
  "emit i m = m\<lparr> code := code m @ [i], masm_offset := masm_offset m + of_nat (instr_len m i) \<rparr>"

definition emits :: "Instr list \<Rightarrow> 'a Masm_scheme \<Rightarrow> 'a Masm_scheme" where
  "emits is m = fold emit is m"

text \<open>\<open>Label l(this)\<close>: the label and the state that has counted it.\<close>

definition new_label :: "'a Masm_scheme \<Rightarrow> Label \<times> 'a Masm_scheme" where
  "new_label m = (labels m, m\<lparr> labels := labels m + 1 \<rparr>)"

text \<open>
  Modelled from the spec: \<open>ChangeAlign\<close>, declared outside these sources. The assembler
  tracks a logical \<open>align_\<close> counter, which \<open>ChangeAlign(slots)\<close> moves by \<open>slots\<close>.
\<close>

definition ChangeAlign :: "int \<Rightarrow> 'a Masm_scheme \<Rightarrow> 'a Masm_scheme" where
  "ChangeAlign n m = m\<lparr> masm_align := masm_align m + n \<rparr>"



text \<open>
  \<open>Masm::Spill\<close>: the constructor takes the next index, stores the register in that
  spill slot and raises \<open>spills_\<close> to the highest index in use; the destructor gives
  the index back.
\<close>

definition Spill_ctor :: "Register \<Rightarrow> 'a Masm_scheme \<Rightarrow> nat \<times> 'a Masm_scheme" where
  "Spill_ctor src m =
     (let index = spill_index m;
          m1 = m\<lparr> spill_index := spill_index m + 1 \<rparr>;
          m2 = emit (movq (S index) (R src)) m1
      in (index, if spill_index m2 > spills m2 then m2\<lparr> spills := spill_index m2 \<rparr> else m2))"

definition Spill_dtor :: "'a Masm_scheme \<Rightarrow> 'a Masm_scheme" where
  "Spill_dtor m = m\<lparr> spill_index := spill_index m - 1 \<rparr>"

definition Unspill :: "nat \<Rightarrow> Register \<Rightarrow> 'a Masm_scheme \<Rightarrow> 'a Masm_scheme" where
  "Unspill index dst m = emit (movq (R dst) (S index)) m"














section \<open>heap.cc, fullgen-x64.cc: errors and the root context\<close>



text \<open>
  What the root context holds. A value made on the heap is identified with what its
  constructor was given: \<open>HObject::NewEmpty(heap)\<close>, \<open>HBoolean::New(heap, tenure, value)\<close>
  and \<open>HString::New(heap, tenure, value, length)\<close>, which copies \<open>length\<close> bytes.
\<close>

datatype TenureType = kTenureNew | kTenureOld




section \<open>fullgen-x64.cc: the generator\<close>




















section \<open>What the generator's properties speak about\<close>

text \<open>
  The assembler only ever appends to the code: a state has grown into another when the
  code of the first is a prefix of the code of the second.
\<close>

definition grows :: "'a Masm_scheme \<Rightarrow> 'a Masm_scheme \<Rightarrow> bool" where
  "grows m m' \<longleftrightarrow> prefix (code m) (code m')"



section \<open>Properties of the page allocator\<close>

subsection \<open>Auxiliary facts\<close>

lemma RoundUp_props:
  assumes to: "to \<noteq> 0" and nowrap: "unat v + unat to \<le> 2 ^ 32"
  shows "\<exists>r. RoundUp v to = Some r \<and> unat v \<le> unat r \<and> unat r < unat v + unat to
           \<and> unat r mod unat to = 0"
proof (cases "v mod to = 0")
  case True
  have "unat to \<noteq> 0" using to by (simp add: unat_eq_0)
  moreover have "unat v mod unat to = 0" using True
    by (metis unat_mod unat_0)
  ultimately show ?thesis using to True by (simp add: RoundUp_def)
next
  case False
  have tnz: "unat to \<noteq> 0" using to by (simp add: unat_eq_0)
  let ?m = "unat v mod unat to"
  have m: "unat (v mod to) = ?m" by (simp add: unat_mod)
  have mpos: "0 < ?m" using False m by (metis gr0I unat_eq_0)
  have mlt: "?m < unat to" using tnz by simp
  have mle: "?m \<le> unat v" by simp
  have le2: "?m \<le> unat v + unat to" using mle by (rule trans_le_add1)
  have "(of_nat (unat v + unat to - ?m) :: u32) = of_nat (unat v + unat to) - of_nat ?m"
    using le2 by (rule of_nat_diff)
  also have "\<dots> = v + to - of_nat (unat (v mod to))" by (simp add: m)
  also have "\<dots> = v + to - v mod to" by simp
  finally have eq: "v + to - v mod to = of_nat (unat v + unat to - ?m)" by simp
  have lt: "unat v + unat to - ?m < 2 ^ 32" using nowrap mpos by simp
  have u: "unat (v + to - v mod to) = unat v + unat to - ?m"
    unfolding eq using lt by (simp add: unat_of_nat)
  have "(unat v + unat to - ?m) mod unat to = 0"
  proof -
    have "unat v + unat to - ?m = (unat v div unat to) * unat to + unat to"
      using div_mult_mod_eq [of "unat v" "unat to"] by linarith
    then show ?thesis by simp
  qed
  with u mpos mlt mle show ?thesis using to False by (simp add: RoundUp_def)
qed


lemma select_selected [simp]: "select (selected sp) sp = sp"
  by (simp add: select_def)

lemma select_fields [simp]:
  "sp_pages (select k sp) = sp_pages sp"
  "selected (select k sp) = k"
  "sp_page_size (select k sp) = sp_page_size sp"
  "sp_size (select k sp) = sp_size sp"
  "sp_size_limit (select k sp) = sp_size_limit sp"
  "select k (select j sp) = select k sp"
  by (simp_all add: select_def)

lemma find_gap_result:
  "selected sp < length (sp_pages sp) \<Longrightarrow>
   \<exists>k item. find_gap e i sp = Some (select k sp, item) \<and> k < length (sp_pages sp) \<and>
     (item < length (sp_pages sp) \<longrightarrow> fits (sp_pages sp ! k) e)"
proof (induction e i sp rule: find_gap.induct)
  case (1 e i sp)
  let ?cur = "sp_pages sp ! selected sp"
  have cur: "current_page sp = Some ?cur" using "1.prems" by (simp add: current_page_def)
  show ?case
  proof (cases "\<not> fits ?cur e \<and> i < length (sp_pages sp)")
    case True
    then have "selected (select i sp) < length (sp_pages (select i sp))" by simp
    from "1.IH" [OF cur _ this] True
    obtain k item where "find_gap e (i + 1) (select i sp) = Some (select k sp, item)"
      and "k < length (sp_pages sp)"
      and "item < length (sp_pages sp) \<longrightarrow> fits (sp_pages sp ! k) e"
      by auto
    then show ?thesis using cur True
      by (subst find_gap.simps) auto
  next
    case False
    have "find_gap e i sp = Some (select (selected sp) sp, i)"
      using cur False by (subst find_gap.simps) auto
    then show ?thesis using False "1.prems" by blast
  qed
qed

lemma find_gap_no_room:
  "selected sp < length (sp_pages sp) \<Longrightarrow> \<forall>p \<in> set (sp_pages sp). \<not> fits p e \<Longrightarrow>
   i \<le> length (sp_pages sp) \<Longrightarrow>
   \<exists>k < length (sp_pages sp). find_gap e i sp = Some (select k sp, length (sp_pages sp))"
proof (induction e i sp rule: find_gap.induct)
  case (1 e i sp)
  let ?cur = "sp_pages sp ! selected sp"
  have cur: "current_page sp = Some ?cur" using "1.prems" by (simp add: current_page_def)
  have nofit: "\<not> fits ?cur e" using "1.prems" by simp
  show ?case
  proof (cases "i < length (sp_pages sp)")
    case True
    have a: "selected (select i sp) < length (sp_pages (select i sp))" using True by simp
    have b: "\<forall>p \<in> set (sp_pages (select i sp)). \<not> fits p e" using "1.prems" by simp
    have c: "i + 1 \<le> length (sp_pages (select i sp))" using True by simp
    from "1.IH" [OF cur _ a b c] nofit True
    obtain k where "k < length (sp_pages sp)"
      and "find_gap e (i + 1) (select i sp) = Some (select k sp, length (sp_pages sp))"
      by auto
    then show ?thesis using cur nofit True
      by (subst find_gap.simps) auto
  next
    case False
    then have "i = length (sp_pages sp)" using "1.prems" by simp
    then have "find_gap e i sp = Some (select (selected sp) sp, length (sp_pages sp))"
      using cur by (subst find_gap.simps) auto
    then show ?thesis using "1.prems" by blast
  qed
qed

lemma even_bytes_ge:
  fixes bytes :: u32
  assumes "unat bytes + 1 < 2 ^ 32"
  shows "unat bytes \<le> unat (bytes + (bytes AND 1))"
    and "unat (bytes + (bytes AND 1)) \<le> unat bytes + 1"
proof -
  have "bytes AND 1 \<le> 1" by (rule word_and_le1)
  then have le1: "unat (bytes AND 1) \<le> 1" by (simp add: word_le_nat_alt)
  then have "unat bytes + unat (bytes AND 1) < 2 ^ 32" using assms by simp
  then have "unat (bytes + (bytes AND 1)) = unat bytes + unat (bytes AND 1)"
    using unat_add_lem [of bytes "bytes AND 1"] by simp
  with le1 show "unat bytes \<le> unat (bytes + (bytes AND 1))"
    and "unat (bytes + (bytes AND 1)) \<le> unat bytes + 1" by simp_all
qed

lemma bump_result:
  assumes "selected sp < length (sp_pages sp)"
  shows "bump e sp =
           Some (page_top (sp_pages sp ! selected sp),
                 sp\<lparr> sp_pages := (sp_pages sp)[selected sp :=
                        (sp_pages sp ! selected sp)\<lparr> page_top :=
                           page_top (sp_pages sp ! selected sp) + unat e \<rparr>] \<rparr>)"
  using assms by (simp add: bump_def current_page_def)

lemma space_set_space [simp]:
  "space (set_space k sp h) k = sp"
  by (cases k) (simp_all add: space_def set_space_def)

lemma space_needs_gc [simp]: "space (h\<lparr> needs_gc := g \<rparr>) k = space h k"
  by (cases k) (simp_all add: space_def)

lemma alloc_from:
  assumes sel: "selected sp < length (sp_pages sp)"
      and fit: "fits (sp_pages sp ! selected sp) e"
      and dat: "page_data (sp_pages sp ! selected sp) \<le> page_top (sp_pages sp ! selected sp)"
      and be: "unat bytes \<le> unat e"
  shows "\<exists>r sp' p. bump e sp = Some (r, sp') \<and> current_page sp' = Some p \<and>
           p \<in> set (sp_pages sp') \<and> page_data p \<le> r \<and> page_top p = r + unat e \<and>
           r + unat bytes \<le> page_top p \<and> page_top p \<le> page_limit p"
proof -
  let ?cur = "sp_pages sp ! selected sp"
  let ?p = "?cur\<lparr> page_top := page_top ?cur + unat e \<rparr>"
  let ?sp' = "sp\<lparr> sp_pages := (sp_pages sp)[selected sp := ?p] \<rparr>"
  have b: "bump e sp = Some (page_top ?cur, ?sp')" using sel by (rule bump_result)
  have c: "current_page ?sp' = Some ?p" using sel by (simp add: current_page_def)
  have m: "?p \<in> set (sp_pages ?sp')" using sel by (simp add: set_update_memI)
  have "page_data ?p \<le> page_top ?cur" using dat by simp
  moreover have "page_top ?p = page_top ?cur + unat e" by simp
  moreover have "page_top ?cur + unat bytes \<le> page_top ?p" using be by simp
  moreover have "page_top ?p \<le> page_limit ?p" using fit by (simp add: fits_def)
  ultimately show ?thesis using b c m by blast
qed


text \<open>
  C1 (amended). On a well-formed space whose page size is not zero, with a request small
  enough that neither the rounding to an even size nor \<open>RoundUp\<close> wraps around 32
  bits, \<open>Space::Allocate\<close> returns. The returned pointer lies in the page the space has
  selected afterwards, which is one of its pages: at or above the page's buffer, and the
  page's bump pointer is the returned pointer plus the request rounded up to an even
  number, so it is at least the returned pointer plus the request (equal to it for an even
  request, never required to be strictly above) and at most the page's limit.
\<close>

theorem Allocate_within_page:
  assumes ok: "space_ok (space h this)"
      and ps: "sp_page_size (space h this) \<noteq> 0"
      and nowrap: "unat bytes + unat (sp_page_size (space h this)) < 2 ^ 32"
  shows "\<exists>r h' p. Allocate this bytes buf h = Some (r, h') \<and>
           current_page (space h' this) = Some p \<and> p \<in> set (sp_pages (space h' this)) \<and>
           page_data p \<le> r \<and> page_top p = r + unat (bytes + (bytes AND 1)) \<and>
           r + unat bytes \<le> page_top p \<and> page_top p \<le> page_limit p"
proof -
  let ?sp = "space h this"
  let ?e = "bytes + (bytes AND 1)"
  let ?cur = "sp_pages ?sp ! selected ?sp"
  have sel: "selected ?sp < length (sp_pages ?sp)" using ok by (simp add: space_ok_def)
  have dat: "\<And>k. k < length (sp_pages ?sp) \<Longrightarrow> page_data (sp_pages ?sp ! k) \<le> page_top (sp_pages ?sp ! k)"
    using ok by (simp add: space_ok_def)
  have cur: "current_page ?sp = Some ?cur" using sel by (simp add: current_page_def)
  have psn: "0 < unat (sp_page_size ?sp)" using ps by (simp add: unat_gt_0)
  have b1: "unat bytes + 1 < 2 ^ 32" using nowrap psn by simp
  have be: "unat bytes \<le> unat ?e" using b1 by (rule even_bytes_ge)
  have eb: "unat ?e \<le> unat bytes + 1" using b1 by (rule even_bytes_ge)
  show ?thesis
  proof (cases "fits ?cur ?e")
    case True
    from alloc_from [OF sel True dat [OF sel] be]
    obtain r sp' p where "bump ?e ?sp = Some (r, sp')" and "current_page sp' = Some p"
      and "p \<in> set (sp_pages sp')" and "page_data p \<le> r" and "page_top p = r + unat ?e"
      and "r + unat bytes \<le> page_top p" and "page_top p \<le> page_limit p" by blast
    moreover from this have "Allocate this bytes buf h = Some (r, set_space this sp' h)"
      using cur True by (simp add: Allocate_def)
    ultimately show ?thesis by auto
  next
    case nofit: False
    from find_gap_result [OF sel, of ?e 0]
    obtain k item where fg: "find_gap ?e 0 ?sp = Some (select k ?sp, item)"
      and k: "k < length (sp_pages ?sp)"
      and it: "item < length (sp_pages ?sp) \<longrightarrow> fits (sp_pages ?sp ! k) ?e" by blast
    show ?thesis
    proof (cases "item < length (sp_pages ?sp)")
      case True
      let ?s1 = "select k ?sp"
      have s1: "selected ?s1 < length (sp_pages ?s1)" using k by simp
      have f1: "fits (sp_pages ?s1 ! selected ?s1) ?e" using it True by simp
      have d1: "page_data (sp_pages ?s1 ! selected ?s1) \<le> page_top (sp_pages ?s1 ! selected ?s1)"
        using dat [OF k] by simp
      from alloc_from [OF s1 f1 d1 be]
      obtain r sp' p where "bump ?e ?s1 = Some (r, sp')" and "current_page sp' = Some p"
        and "p \<in> set (sp_pages sp')" and "page_data p \<le> r" and "page_top p = r + unat ?e"
        and "r + unat bytes \<le> page_top p" and "page_top p \<le> page_limit p" by blast
      moreover from this have "Allocate this bytes buf h = Some (r, set_space this sp' h)"
        using cur nofit fg True by (simp add: Allocate_def)
      ultimately show ?thesis by auto
    next
      case False
      let ?s1 = "select k ?sp"
      have "unat ?e + unat (sp_page_size ?sp) \<le> 2 ^ 32" using eb nowrap by simp
      from RoundUp_props [OF ps this]
      obtain rs where rs: "RoundUp ?e (sp_page_size ?sp) = Some rs" and ge: "unat ?e \<le> unat rs"
        by blast
      let ?s2 = "select (length (sp_pages ?sp))
                   (?s1\<lparr> sp_pages := sp_pages ?sp @ [Page_new buf rs],
                         sp_size := sp_size ?sp + rs \<rparr>)"
      have ap: "AddPage ?e buf ?s1 = Some ?s2" using rs by (simp add: AddPage_def)
      have s2: "selected ?s2 < length (sp_pages ?s2)" by simp
      have f2: "fits (sp_pages ?s2 ! selected ?s2) ?e" using ge by (simp add: fits_def Page_new_def)
      have d2: "page_data (sp_pages ?s2 ! selected ?s2) \<le> page_top (sp_pages ?s2 ! selected ?s2)"
        by (simp add: Page_new_def)
      from alloc_from [OF s2 f2 d2 be]
      obtain r sp' p where bm: "bump ?e ?s2 = Some (r, sp')" and "current_page sp' = Some p"
        and "p \<in> set (sp_pages sp')" and "page_data p \<le> r" and "page_top p = r + unat ?e"
        and "r + unat bytes \<le> page_top p" and "page_top p \<le> page_limit p" by blast
      moreover have "\<exists>h1. Allocate this bytes buf h = Some (r, set_space this sp' h1)"
        using cur nofit fg False ap bm by (auto simp: Allocate_def Let_def)
      ultimately show ?thesis by auto
    qed
  qed
qed



theorem Allocate_within_page_witness:
  "space_ok (space (Heap_new 1024 4096 8192 2048) NewSpace) \<and>
   sp_page_size (space (Heap_new 1024 4096 8192 2048) NewSpace) \<noteq> 0 \<and>
   unat (2001 :: u32) + unat (sp_page_size (space (Heap_new 1024 4096 8192 2048) NewSpace)) < 2 ^ 32 \<and>
   (\<exists>r h' p. Allocate NewSpace 2001 12288 (Heap_new 1024 4096 8192 2048) = Some (r, h') \<and>
      current_page (space h' NewSpace) = Some p \<and> p \<in> set (sp_pages (space h' NewSpace)) \<and>
      page_data p \<le> r \<and> page_top p = r + unat ((2001 :: u32) + (2001 AND 1)) \<and>
      r + unat (2001 :: u32) \<le> page_top p \<and> page_top p \<le> page_limit p)"
proof -
  let ?h = "Heap_new 1024 4096 8192 2048"
  have a: "space_ok (space ?h NewSpace)"
    by (simp add: space_ok_def Heap_new_def Space_new_def space_def Page_new_def)
  have b: "sp_page_size (space ?h NewSpace) \<noteq> 0"
    by (simp add: Heap_new_def Space_new_def space_def)
  have c: "unat (2001 :: u32) + unat (sp_page_size (space ?h NewSpace)) < 2 ^ 32"
    by (simp add: Heap_new_def Space_new_def space_def)
  from Allocate_within_page [OF a b c, of 12288] a b c show ?thesis by blast
qed


text \<open>
  C1 as stated fails: in a fresh heap with pages of 1024 bytes, a request of 8 bytes
  returns the start of the page and leaves the bump pointer at exactly the returned
  pointer plus 8, so no page of the space has its top strictly above that.
\<close>

theorem Allocate_top_not_above_counterexample:
  "Allocate NewSpace 8 12288 (Heap_new 1024 4096 8192 2048) =
     Some (4096,
       (Heap_new 1024 4096 8192 2048)
         \<lparr> new_space :=
             \<lparr> sp_pages = [\<lparr> page_data = 4096, page_top = 4104, page_limit = 5120 \<rparr>],
               selected = 0, sp_page_size = 1024, sp_size = 0, sp_size_limit = 2048 \<rparr> \<rparr>) \<and>
   \<not> (4096 + unat (8 :: u32) < (4104 :: nat))"
  by (simp add: Allocate_def Heap_new_def Space_new_def space_def set_space_def Page_new_def
        current_page_def fits_def bump_def)

text \<open>
  C2 (amended). When neither the selected page nor any other page of the space has room
  for the request rounded up to an even number, \<open>Space::Allocate\<close> sets the heap's
  needs-GC flag to the kind of this space exactly when the space's size exceeds its
  limit, and then adds a fresh page whose size is the even request rounded up by
  \<open>RoundUp\<close> to the page size, selects it and allocates at its start. Unless the 32-bit
  arithmetic wraps, that size is the multiple of the page size at or next above the even
  request.
\<close>

theorem Allocate_no_room:
  assumes sel: "selected (space h this) < length (sp_pages (space h this))"
      and ps: "sp_page_size (space h this) \<noteq> 0"
      and noroom: "\<forall>p \<in> set (sp_pages (space h this)). \<not> fits p (bytes + (bytes AND 1))"
  shows "\<exists>real_size.
           RoundUp (bytes + (bytes AND 1)) (sp_page_size (space h this)) = Some real_size \<and>
           Allocate this bytes buf h =
             Some (buf,
               set_space this
                 ((space h this)
                    \<lparr> sp_pages := sp_pages (space h this) @
                         [\<lparr> page_data = buf, page_top = buf + unat (bytes + (bytes AND 1)),
                            page_limit = buf + unat real_size \<rparr>],
                      selected := length (sp_pages (space h this)),
                      sp_size := sp_size (space h this) + real_size \<rparr>)
                 (if sp_size (space h this) > sp_size_limit (space h this)
                  then h\<lparr> needs_gc := (if this = NewSpace then kGCNewSpace else kGCOldSpace) \<rparr>
                  else h)) \<and>
           (unat (bytes + (bytes AND 1)) + unat (sp_page_size (space h this)) \<le> 2 ^ 32 \<longrightarrow>
              unat real_size mod unat (sp_page_size (space h this)) = 0 \<and>
              unat (bytes + (bytes AND 1)) \<le> unat real_size \<and>
              unat real_size < unat (bytes + (bytes AND 1)) + unat (sp_page_size (space h this)))"
proof -
  let ?sp = "space h this"
  let ?e = "bytes + (bytes AND 1)"
  let ?cur = "sp_pages ?sp ! selected ?sp"
  have cur: "current_page ?sp = Some ?cur" using sel by (simp add: current_page_def)
  have nofit: "\<not> fits ?cur ?e" using noroom sel by simp
  from find_gap_no_room [OF sel noroom, of 0]
  obtain k where k: "k < length (sp_pages ?sp)"
    and fg: "find_gap ?e 0 ?sp = Some (select k ?sp, length (sp_pages ?sp))" by auto
  have "\<exists>rs. RoundUp ?e (sp_page_size ?sp) = Some rs"
    using ps by (simp add: RoundUp_def)
  then obtain rs where rs: "RoundUp ?e (sp_page_size ?sp) = Some rs" by blast
  let ?s2 = "select (length (sp_pages ?sp))
               ((select k ?sp)\<lparr> sp_pages := sp_pages ?sp @ [Page_new buf rs],
                     sp_size := sp_size ?sp + rs \<rparr>)"
  have ap: "AddPage ?e buf (select k ?sp) = Some ?s2" using rs by (simp add: AddPage_def)
  have s2: "selected ?s2 < length (sp_pages ?s2)" by simp
  have bm: "bump ?e ?s2 =
      Some (buf, ?sp\<lparr> sp_pages := sp_pages ?sp @
                         [\<lparr> page_data = buf, page_top = buf + unat ?e,
                            page_limit = buf + unat rs \<rparr>],
                      selected := length (sp_pages ?sp),
                      sp_size := sp_size ?sp + rs \<rparr>)"
    unfolding bump_result [OF s2] by (simp add: Page_new_def select_def)
  have al: "Allocate this bytes buf h =
             Some (buf,
               set_space this
                 (?sp\<lparr> sp_pages := sp_pages ?sp @
                         [\<lparr> page_data = buf, page_top = buf + unat ?e,
                            page_limit = buf + unat rs \<rparr>],
                      selected := length (sp_pages ?sp),
                      sp_size := sp_size ?sp + rs \<rparr>)
                 (if sp_size ?sp > sp_size_limit ?sp
                  then h\<lparr> needs_gc := (if this = NewSpace then kGCNewSpace else kGCOldSpace) \<rparr>
                  else h))"
    using cur nofit fg ap bm by (simp add: Allocate_def Let_def)
  have bd: "unat ?e + unat (sp_page_size ?sp) \<le> 2 ^ 32 \<longrightarrow>
          unat rs mod unat (sp_page_size ?sp) = 0 \<and> unat ?e \<le> unat rs \<and>
          unat rs < unat ?e + unat (sp_page_size ?sp)"
    using RoundUp_props [OF ps, of ?e] rs by auto
  show ?thesis
    by (rule exI [of _ rs]) (intro conjI rs al bd)
qed

theorem Allocate_no_room_witness:
  "Allocate OldSpace 1500 16384
     \<lparr> new_space = Space_new 1024 4096 0,
       old_space =
         \<lparr> sp_pages = [\<lparr> page_data = 8192, page_top = 8192, page_limit = 9216 \<rparr>,
                       \<lparr> page_data = 12288, page_top = 13788, page_limit = 14336 \<rparr>],
           selected = 1, sp_page_size = 1024, sp_size = 2048, sp_size_limit = 0 \<rparr>,
       needs_gc = kGCNone \<rparr> =
   Some (16384,
     \<lparr> new_space = Space_new 1024 4096 0,
       old_space =
         \<lparr> sp_pages = [\<lparr> page_data = 8192, page_top = 8192, page_limit = 9216 \<rparr>,
                       \<lparr> page_data = 12288, page_top = 13788, page_limit = 14336 \<rparr>,
                       \<lparr> page_data = 16384, page_top = 17884, page_limit = 18432 \<rparr>],
           selected = 2, sp_page_size = 1024, sp_size = 4096, sp_size_limit = 0 \<rparr>,
       needs_gc = kGCOldSpace \<rparr>)"
proof -
  let ?h = "\<lparr> new_space = Space_new 1024 4096 0,
       old_space =
         \<lparr> sp_pages = [\<lparr> page_data = 8192, page_top = 8192, page_limit = 9216 \<rparr>,
                       \<lparr> page_data = 12288, page_top = 13788, page_limit = 14336 \<rparr>],
           selected = 1, sp_page_size = 1024, sp_size = 2048, sp_size_limit = 0 \<rparr>,
       needs_gc = kGCNone \<rparr>"
  have a: "selected (space ?h OldSpace) < length (sp_pages (space ?h OldSpace))"
    by (simp add: space_def)
  have b: "sp_page_size (space ?h OldSpace) \<noteq> 0"
    by (simp add: space_def)
  have c: "\<forall>p \<in> set (sp_pages (space ?h OldSpace)). \<not> fits p (1500 + (1500 AND 1))"
    by (simp add: space_def fits_def)
  have r: "RoundUp (1500 + (1500 AND 1)) (sp_page_size (space ?h OldSpace)) = Some 2048"
    by (simp add: space_def RoundUp_def)
  from Allocate_no_room [OF a b c, of 16384] r
  show ?thesis
    by (simp add: space_def set_space_def)
qed

text \<open>
  C2 as stated fails: with pages of 1024 bytes and no room left, a request of 1500 bytes
  gets a fresh page of 2048 bytes, which is not the larger of 1500 and 1024.
\<close>

theorem Allocate_fresh_page_size_counterexample:
  "Allocate OldSpace 1500 12288 (Heap_new 1024 4096 8192 2048) =
     Some (12288,
       (Heap_new 1024 4096 8192 2048)
         \<lparr> old_space :=
             \<lparr> sp_pages = [\<lparr> page_data = 8192, page_top = 8192, page_limit = 9216 \<rparr>,
                           \<lparr> page_data = 12288, page_top = 13788, page_limit = 14336 \<rparr>],
               selected = 1, sp_page_size = 1024, sp_size = 2048, sp_size_limit = 2048 \<rparr> \<rparr>) \<and>
   (14336 - 12288 :: nat) \<noteq> max (unat (1500 :: u32)) (unat (1024 :: u32))"
  by (simp add: Allocate_def Heap_new_def space_def set_space_def Space_new_def Page_new_def
        current_page_def fits_def bump_def select_def AddPage_def RoundUp_def
        find_gap.simps [of _ 0] find_gap.simps [of _ "Suc 0"])
section \<open>Properties of HArray::Length\<close>

lemma shrink_loop_neg: "n < 0 \<Longrightarrow> shrink_loop obj n = n"
  by (subst shrink_loop.simps) simp

lemma shrink_loop_spec:
  "0 \<le> n \<Longrightarrow>
   - 1 \<le> shrink_loop obj n \<and> shrink_loop obj n < n \<and>
   (\<forall>i. shrink_loop obj n < i \<and> i < n \<longrightarrow> slot_at obj (HNumber_Tag i) = HNil_New) \<and>
   (0 \<le> shrink_loop obj n \<longrightarrow> slot_at obj (HNumber_Tag (shrink_loop obj n)) \<noteq> HNil_New)"
proof (induction obj n rule: shrink_loop.induct)
  case (1 obj n)
  show ?case
  proof (cases "slot_at obj (HNumber_Tag (n - 1)) = HNil_New")
    case nil: True
    then have eq: "shrink_loop obj n = shrink_loop obj (n - 1)"
      using "1.prems" by (subst shrink_loop.simps) simp
    show ?thesis
    proof (cases "n = 0")
      case True
      then have "shrink_loop obj (n - 1) = - 1" by (simp add: shrink_loop_neg)
      then show ?thesis unfolding eq using True by auto
    next
      case False
      then have "0 \<le> n - 1" using "1.prems" by simp
      from "1.IH" [OF _ nil this] "1.prems"
      have ih: "- 1 \<le> shrink_loop obj (n - 1)" "shrink_loop obj (n - 1) < n - 1"
        "\<forall>i. shrink_loop obj (n - 1) < i \<and> i < n - 1 \<longrightarrow> slot_at obj (HNumber_Tag i) = HNil_New"
        "0 \<le> shrink_loop obj (n - 1) \<longrightarrow> slot_at obj (HNumber_Tag (shrink_loop obj (n - 1))) \<noteq> HNil_New"
        by simp_all
      have "\<forall>i. shrink_loop obj (n - 1) < i \<and> i < n \<longrightarrow> slot_at obj (HNumber_Tag i) = HNil_New"
      proof (intro allI impI)
        fix i assume "shrink_loop obj (n - 1) < i \<and> i < n"
        then have "i = n - 1 \<or> (shrink_loop obj (n - 1) < i \<and> i < n - 1)" by linarith
        then show "slot_at obj (HNumber_Tag i) = HNil_New" using nil ih(3) by blast
      qed
      with ih show ?thesis unfolding eq by simp
    qed
  next
    case False
    then have eq: "shrink_loop obj n = n - 1"
      using "1.prems" by (subst shrink_loop.simps) simp
    have "\<forall>i. n - 1 < i \<and> i < n \<longrightarrow> slot_at obj (HNumber_Tag i) = HNil_New"
      by (intro allI impI) linarith
    then show ?thesis unfolding eq using False "1.prems" by simp
  qed
qed

text \<open>
  C4. For an array whose length field is between 0 and \<open>2^63\<close>,
  \<open>HArray::Length(obj, true)\<close> returns the index of the last element that is not nil
  plus one, and 0 when there is none: every element from the result up to the old length
  is nil, and the element just below a positive result is not. The result is stored as
  the array's length and nothing else changes. For the array \<open>[1, 2, 3]\<close> after
  \<open>a[2] = nil\<close> the result is 2.
\<close>

theorem HArray_Length_shrink:
  assumes "0 \<le> length_field a" and "length_field a < 2 ^ 63"
  shows "length_field (snd (HArray_Length a True)) = fst (HArray_Length a True) \<and>
         slot_at (snd (HArray_Length a True)) = slot_at a \<and>
         0 \<le> fst (HArray_Length a True) \<and> fst (HArray_Length a True) \<le> length_field a \<and>
         (\<forall>i. fst (HArray_Length a True) \<le> i \<and> i < length_field a \<longrightarrow>
                slot_at a (HNumber_Tag i) = HNil_New) \<and>
         (0 < fst (HArray_Length a True) \<longrightarrow>
            slot_at a (HNumber_Tag (fst (HArray_Length a True) - 1)) \<noteq> HNil_New)"
proof -
  let ?s = "shrink_loop a (length_field a)"
  from shrink_loop_spec [OF assms(1), of a]
  have s: "- 1 \<le> ?s" "?s < length_field a"
    "\<forall>i. ?s < i \<and> i < length_field a \<longrightarrow> slot_at a (HNumber_Tag i) = HNil_New"
    "0 \<le> ?s \<longrightarrow> slot_at a (HNumber_Tag ?s) \<noteq> HNil_New"
    by simp_all
  have ne: "length_field a \<noteq> ?s - 1" using s(2) by simp
  have r: "HArray_Length a True = (?s + 1, a\<lparr> length_field := ?s + 1 \<rparr>)"
    using ne by (simp add: HArray_Length_def Let_def)
  show ?thesis unfolding r using s by simp
qed


theorem HArray_Length_shrink_witness:
  "(0 :: int) \<le> 3 \<and> (3 :: int) < 2 ^ 63 \<and>
   HArray_Length
     \<lparr> length_field = 3,
       slot_at = (\<lambda>key. if key = HNumber_Tag 0 then HNumber_Tag 1
                        else if key = HNumber_Tag 1 then HNumber_Tag 2
                        else HNil_New) \<rparr> True =
   (2, \<lparr> length_field = 2,
         slot_at = (\<lambda>key. if key = HNumber_Tag 0 then HNumber_Tag 1
                          else if key = HNumber_Tag 1 then HNumber_Tag 2
                          else HNil_New) \<rparr>)"
proof -
  let ?a = "\<lparr> length_field = 3,
       slot_at = (\<lambda>key. if key = HNumber_Tag 0 then HNumber_Tag 1
                        else if key = HNumber_Tag 1 then HNumber_Tag 2
                        else HNil_New) \<rparr>"
  let ?r = "fst (HArray_Length ?a True)"
  have h1: "0 \<le> length_field ?a" by simp
  have h2: "length_field ?a < 2 ^ 63" by simp
  note t = HArray_Length_shrink [OF h1 h2]
  have nil2: "slot_at ?a (HNumber_Tag 2) = HNil_New" by (simp add: HNumber_Tag_def HNil_New_def)
  have val1: "slot_at ?a (HNumber_Tag 1) \<noteq> HNil_New" by (simp add: HNumber_Tag_def HNil_New_def)
  have "?r \<le> 3" "0 \<le> ?r" using t by simp_all
  moreover have "?r \<noteq> 3"
  proof
    assume "?r = 3"
    with t have "slot_at ?a (HNumber_Tag (3 - 1)) \<noteq> HNil_New" by simp
    with nil2 show False by simp
  qed
  moreover have "\<not> ?r \<le> 1"
  proof
    assume "?r \<le> 1"
    with t have "slot_at ?a (HNumber_Tag 1) = HNil_New" by simp
    with val1 show False by simp
  qed
  ultimately have r2: "?r = 2" by linarith
  have "snd (HArray_Length ?a True) = ?a\<lparr> length_field := 2 \<rparr>"
    using t r2 by (cases "snd (HArray_Length ?a True)") simp
  with r2 have "HArray_Length ?a True = (2, ?a\<lparr> length_field := 2 \<rparr>)"
    by (cases "HArray_Length ?a True") simp
  then show ?thesis by simp
qed
section \<open>Properties of the string hash\<close>

lemma load32_store32: "load32 (store32 m a v) a = v"
proof -
  have d: "a + 1 \<noteq> a" "a + 2 \<noteq> a" "a + 3 \<noteq> a" "a + 2 \<noteq> a + 1" "a + 3 \<noteq> a + 1" "a + 3 \<noteq> a + 2"
    by simp_all
  have "load32 (store32 m a v) a =
      ucast (ucast v :: u8) OR push_bit 8 (ucast (ucast (drop_bit 8 v) :: u8)) OR
      push_bit 16 (ucast (ucast (drop_bit 16 v) :: u8)) OR
      push_bit 24 (ucast (ucast (drop_bit 24 v) :: u8))"
    using d by (simp add: load32_def store32_def)
  also have "\<dots> = v"
  proof (rule bit_eqI)
    fix n
    assume "possible_bit TYPE(u32) n"
    then have n: "n < 32" by (simp add: possible_bit_word)
    consider "n < 8" | "8 \<le> n" "n < 16" | "16 \<le> n" "n < 24" | "24 \<le> n" "n < 32"
      using n by linarith
    then show "bit (ucast (ucast v :: u8) OR push_bit 8 (ucast (ucast (drop_bit 8 v) :: u8)) OR
      push_bit 16 (ucast (ucast (drop_bit 16 v) :: u8)) OR
      push_bit 24 (ucast (ucast (drop_bit 24 v) :: u8)) :: u32) n = bit v n"
      by cases (simp_all add: bit_simps, linarith+)
  qed
  finally show ?thesis .
qed


lemma ComputeHash_empty: "ComputeHash key 0 = 0"
  by (simp add: ComputeHash_def ComputeHash_loop.simps hash_mixup_def)

lemma ComputeHash_one: "ComputeHash key 1 = hash_mixup (hash_step 0 (scast (key 0)))"
  by (simp add: ComputeHash_def ComputeHash_loop.simps [of _ _ 0] ComputeHash_loop.simps [of _ _ 1])

text \<open>
  C5 (amended). For every string object whose hash is not 0: once \<open>HString::Hash\<close> has
  been called on it, a second call returns the same hash, read from the cached header
  field, leaves the memory as it is and performs no writes. (The value 0 in the field
  means "not computed", so a string whose hash is 0 is hashed and written on every call.)
\<close>

theorem HString_Hash_cached:
  assumes "HString_Hash addr m = (h1, m1, w1)" and "h1 \<noteq> 0"
  shows "HString_Hash addr m1 = (h1, m1, [])"
proof (cases "load32 m (addr + kHashOffset) = 0")
  case True
  with assms(1) have m1: "m1 = store32 m (addr + kHashOffset) h1"
    by (auto simp: HString_Hash_def Let_def)
  have "load32 m1 (addr + kHashOffset) = h1" unfolding m1 by (rule load32_store32)
  with assms(2) show ?thesis by (simp add: HString_Hash_def Let_def)
next
  case False
  with assms(1) have "m1 = m" "load32 m (addr + kHashOffset) = h1"
    by (auto simp: HString_Hash_def Let_def)
  with assms(2) show ?thesis by (simp add: HString_Hash_def Let_def)
qed


theorem HString_Hash_cached_witness:
  "HString_Hash 4096 (HString_init 4096 [0x61] (\<lambda>_. 0)) =
     (3392050242, store32 (HString_init 4096 [0x61] (\<lambda>_. 0)) 4104 3392050242,
      [Write32 4104 3392050242]) \<and>
   (3392050242 :: u32) \<noteq> 0 \<and>
   HString_Hash 4096 (store32 (HString_init 4096 [0x61] (\<lambda>_. 0)) 4104 3392050242) =
     (3392050242, store32 (HString_init 4096 [0x61] (\<lambda>_. 0)) 4104 3392050242, [])"
proof -
  let ?m = "HString_init 4096 [0x61] (\<lambda>_. 0)"
  have len: "HString_Length ?m 4096 = 1"
    by (simp add: HString_Length_def HString_init_def kValueOffset_def kLengthOffset_def
          kHashOffset_def load32_def store64_def store32_def)
  have h0: "load32 ?m (4096 + kHashOffset) = 0"
    by (simp add: HString_init_def kValueOffset_def kLengthOffset_def
          kHashOffset_def load32_def store64_def store32_def)
  have b: "?m (HString_Value 4096 + of_nat 0) = 0x61"
    by (simp add: HString_Value_def HString_init_def kValueOffset_def)
  have c: "ComputeHash (\<lambda>i. ?m (HString_Value 4096 + of_nat i)) 1 = 3392050242"
    unfolding ComputeHash_one b by (simp add: hash_mixup_def hash_step_def)
  have first: "HString_Hash 4096 ?m =
     (3392050242, store32 ?m 4104 3392050242, [Write32 4104 3392050242])"
    unfolding HString_Hash_def Let_def h0 len c by (simp add: kHashOffset_def)
  have nz: "(3392050242 :: u32) \<noteq> 0" by simp
  from first nz HString_Hash_cached [OF first nz] show ?thesis by blast
qed

text \<open>
  C5 as stated fails for the empty string: its hash is 0, the value that marks the field
  as not computed, so the second call computes the hash again and writes the field again.
\<close>

theorem HString_Hash_empty_rewrites_counterexample:
  "HString_Hash 4096 (HString_init 4096 [] (\<lambda>_. 0)) =
     (0, store32 (HString_init 4096 [] (\<lambda>_. 0)) 4104 0, [Write32 4104 0]) \<and>
   snd (snd (HString_Hash 4096 (store32 (HString_init 4096 [] (\<lambda>_. 0)) 4104 0))) =
     [Write32 4104 0]"
proof -
  let ?m = "HString_init 4096 [] (\<lambda>_. 0)"
  let ?m1 = "store32 ?m 4104 0"
  have len: "HString_Length ?m 4096 = 0" "HString_Length ?m1 4096 = 0"
    by (simp_all add: HString_Length_def HString_init_def kValueOffset_def kLengthOffset_def
          kHashOffset_def load32_def store64_def store32_def)
  have h0: "load32 ?m (4096 + kHashOffset) = 0" "load32 ?m1 (4096 + kHashOffset) = 0"
    by (simp_all add: HString_init_def kValueOffset_def kLengthOffset_def
          kHashOffset_def load32_def store64_def store32_def)
  show ?thesis
    unfolding HString_Hash_def Let_def h0 len ComputeHash_empty
    by (simp add: kHashOffset_def)
qed


lemma StringHash_loop_done: "regs s rcx = 0 \<Longrightarrow> StringHash_loop str result s = Some s"
  by (subst StringHash_loop.simps) simp

lemma StringHash_loop_step:
  "regs s rcx \<noteq> 0 \<Longrightarrow>
   StringHash_loop str result s = StringHash_loop str result (StringHash_body str result s)"
  by (subst StringHash_loop.simps) simp

text \<open>
  C6 says that the hash computed by the emitted code of \<open>Masm::StringHash\<close> equals
  \<open>ComputeHash(key, length)\<close> for every byte sequence. For the string of the single
  byte \<open>0x80\<close>, at address 4096 with its hash not yet computed, the emitted code, run
  with the string in \<open>rax\<close> and the result in \<open>rbx\<close>, leaves 662687451 in \<open>rbx\<close>,
  while \<open>HString::Hash\<close>, which calls \<open>ComputeHash\<close>, returns 3273477671:
  \<open>movzxb\<close> zero-extends the byte and \<open>hash += key[i]\<close> sign-extends it.
\<close>

theorem StringHash_differs_from_ComputeHash:
  "map_option (\<lambda>s. regs s rbx)
     (StringHash rax rbx
        \<lparr> regs = (\<lambda>_. 0)(rax := 4096), mem = HString_init 4096 [0x80] (\<lambda>_. 0), stack = [] \<rparr>) =
     Some 662687451 \<and>
   fst (HString_Hash 4096 (HString_init 4096 [0x80] (\<lambda>_. 0))) = 3273477671"
proof -
  let ?m = "HString_init 4096 [0x80] (\<lambda>_. 0)"
  have asm: "map_option (\<lambda>s. regs s rbx)
     (StringHash rax rbx \<lparr> regs = (\<lambda>_. 0)(rax := 4096), mem = ?m, stack = [] \<rparr>) =
     Some 662687451"
    unfolding StringHash_def Let_def
    apply (simp add: x_movq_rm_def ea_def kHashOffset_def kLengthOffset_def kValueOffset_def
        load64_def load32_def HString_init_def store64_def store32_def set_reg_def run_def
        x_push_def x_xorq_def x_addq_ri_def)
    apply (subst StringHash_loop_step)
     apply simp
    apply (subst StringHash_loop_done)
     apply (simp add: StringHash_body_def run_def x_dec_def x_inc_def x_xorl_def x_shrl_def
        x_shll_def x_addl_def x_movq_rr_def x_movzxb_def set_reg_def ea_def low32_def)
    apply (simp add: StringHash_body_def run_def x_dec_def x_inc_def x_xorl_def x_shrl_def
        x_shll_def x_addl_def x_movq_rr_def x_movzxb_def set_reg_def ea_def low32_def
        StringHash_mixup_def x_pop_def x_movq_mr_def)
    done
  have len: "HString_Length ?m 4096 = 1"
    by (simp add: HString_Length_def HString_init_def kValueOffset_def kLengthOffset_def
          kHashOffset_def load32_def store64_def store32_def)
  have h0: "load32 ?m (4096 + kHashOffset) = 0"
    by (simp add: HString_init_def kValueOffset_def kLengthOffset_def
          kHashOffset_def load32_def store64_def store32_def)
  have b: "?m (HString_Value 4096 + of_nat 0) = 0x80"
    by (simp add: HString_Value_def HString_init_def kValueOffset_def)
  have c: "ComputeHash (\<lambda>i. ?m (HString_Value 4096 + of_nat i)) 1 = 3273477671"
    unfolding ComputeHash_one b by (simp add: hash_mixup_def hash_step_def)
  have "fst (HString_Hash 4096 ?m) = 3273477671"
    unfolding HString_Hash_def Let_def h0 len c by simp
  with asm show ?thesis by simp
qed

section \<open>Properties of Heap::RemoveWeak\<close>

lemma RemoveWeak_loop_returns:
  assumes "RemoveWeak_loop tail v l = Some r"
  shows "\<not> (\<exists>t it. tail = Some t \<and> items l t = Some it \<and> weak_value (item_value it) \<noteq> v)"
proof (rule RemoveWeak_loop.raw_induct [OF _ assms])
  fix f :: "ptr option \<Rightarrow> u64 \<Rightarrow> HValueWeakRef UtilsList \<Rightarrow> (fault + HValueWeakRef UtilsList) option"
    and tail v l r
  assume IH: "\<And>tail v l r. f tail v l = Some r \<Longrightarrow>
     \<not> (\<exists>t it. tail = Some t \<and> items l t = Some it \<and> weak_value (item_value it) \<noteq> v)"
  assume step: "(case tail of
        None \<Rightarrow> Some (Inr l)
      | Some t \<Rightarrow>
          (case items l t of
             None \<Rightarrow> Some (Inl UseAfterFree)
           | Some it \<Rightarrow>
               if weak_value (item_value it) = v
               then (case Remove t l of
                       Inl f \<Rightarrow> Some (Inl f)
                     | Inr l' \<Rightarrow> f tail v l')
               else f tail v l)) = Some r"
  show "\<not> (\<exists>t it. tail = Some t \<and> items l t = Some it \<and> weak_value (item_value it) \<noteq> v)"
  proof
    assume "\<exists>t it. tail = Some t \<and> items l t = Some it \<and> weak_value (item_value it) \<noteq> v"
    then obtain t it where c: "tail = Some t" "items l t = Some it" "weak_value (item_value it) \<noteq> v"
      by blast
    with step have "f tail v l = Some r" by simp
    from IH [OF this] c show False by blast
  qed
qed

lemma RemoveWeak_loop_diverges:
  assumes "items l t = Some it" and "weak_value (item_value it) \<noteq> v"
  shows "RemoveWeak_loop (Some t) v l = None"
proof (cases "RemoveWeak_loop (Some t) v l")
  case None
  then show ?thesis .
next
  case (Some r)
  from RemoveWeak_loop_returns [OF this] assms show ?thesis by blast
qed

lemma RemoveWeak_empty: "RemoveWeak v List_new = Some (Inr List_new)"
  by (simp add: RemoveWeak_def List_new_def RemoveWeak_loop.simps)

text \<open>
  C10 says that \<open>Heap::RemoveWeak\<close> terminates on every finite list of weak
  references. In the code the loop variable \<open>tail\<close> is never advanced: on a list with
  one weak reference, to the value 8, the call \<open>RemoveWeak(16)\<close> does not return.
\<close>

theorem RemoveWeak_does_not_return:
  "AddWeak 8 0 100 List_new =
     Inr \<lparr> items = (\<lambda>_. None)(100 \<mapsto> \<lparr> item_value = \<lparr> weak_value = 8, weak_callback = 0 \<rparr>,
                                          item_prev = None, item_next = None \<rparr>),
           list_head = Some 100, list_current = Some 100, list_length = 1,
           allocated = False \<rparr> \<and>
   RemoveWeak 16
     \<lparr> items = (\<lambda>_. None)(100 \<mapsto> \<lparr> item_value = \<lparr> weak_value = 8, weak_callback = 0 \<rparr>,
                                      item_prev = None, item_next = None \<rparr>),
       list_head = Some 100, list_current = Some 100, list_length = 1,
       allocated = False \<rparr> = None"
proof -
  let ?l = "\<lparr> items = (\<lambda>_. None)(100 \<mapsto> \<lparr> item_value = \<lparr> weak_value = 8, weak_callback = 0 \<rparr>,
                                               item_prev = None, item_next = None \<rparr>),
             list_head = Some 100, list_current = Some 100, list_length = 1,
             allocated = False \<rparr> :: HValueWeakRef UtilsList"
  have a: "AddWeak 8 0 100 List_new = Inr ?l"
    by (simp add: AddWeak_def Push_def List_new_def)
  have "RemoveWeak_loop (Some 100) 16 ?l = None"
    by (rule RemoveWeak_loop_diverges [where it = "\<lparr> item_value = \<lparr> weak_value = 8, weak_callback = 0 \<rparr>,
                                               item_prev = None, item_next = None \<rparr>"]) simp_all
  then have "RemoveWeak 16 ?l = None" by (simp add: RemoveWeak_def)
  with a show ?thesis by simp
qed

text \<open>
  When the value at the tail matches, \<open>Remove\<close> deletes the item, and the next round
  of the loop reads the deleted item.
\<close>

lemma RemoveWeak_matching_faults:
  "\<exists>l. AddWeak 8 0 100 List_new = Inr l \<and> RemoveWeak 8 l = Some (Inl UseAfterFree)"
proof -
  let ?l = "\<lparr> items = (\<lambda>_. None)(100 \<mapsto> \<lparr> item_value = \<lparr> weak_value = 8, weak_callback = 0 \<rparr>,
                                               item_prev = None, item_next = None \<rparr>),
             list_head = Some 100, list_current = Some 100, list_length = 1,
             allocated = False \<rparr> :: HValueWeakRef UtilsList"
  have a: "AddWeak 8 0 100 List_new = Inr ?l"
    by (simp add: AddWeak_def Push_def List_new_def)
  have r: "Remove 100 ?l = Inr (?l\<lparr> items := (\<lambda>_. None), list_head := None, list_current := None,
                list_length := 0 \<rparr>)"
    by (simp add: Remove_def Item_remove_def Let_def fun_eq_iff)
  have "RemoveWeak 8 ?l = Some (Inl UseAfterFree)"
    unfolding RemoveWeak_def
    apply (subst RemoveWeak_loop.simps)
    apply (simp add: r)
    apply (subst RemoveWeak_loop.simps)
    apply simp
    done
  with a show ?thesis by simp
qed
section \<open>Properties of the code generator\<close>

subsection \<open>Auxiliary facts\<close>





lemma grows_iff: "grows m m' \<longleftrightarrow> (\<exists>xs. code m' = code m @ xs)"
  by (simp add: grows_def prefix_def)

lemma grows_refl [simp]: "grows m m"
  by (simp add: grows_iff)


lemma grows_code: "code m' = code m @ xs \<Longrightarrow> grows m m'"
  by (auto simp: grows_iff)

lemma code_emit [simp]: "code (emit i m) = code m @ [i]"
  by (simp add: emit_def)

lemma code_emits [simp]: "code (emits is m) = code m @ is"
  unfolding emits_def by (induction "is" arbitrary: m) simp_all

lemma code_ChangeAlign [simp]: "code (ChangeAlign n m) = code m"
  by (simp add: ChangeAlign_def)

lemma code_Spill_dtor [simp]: "code (Spill_dtor m) = code m"
  by (simp add: Spill_dtor_def)

lemma code_new_label [simp]: "code (snd (new_label m)) = code m"
  by (simp add: new_label_def)

lemma code_Spill_ctor [simp]:
  "code (snd (Spill_ctor r m)) = code m @ [movq (S (spill_index m)) (R r)]"
  by (simp add: Spill_ctor_def Let_def emit_def)

lemma code_Unspill [simp]: "code (Unspill i r m) = code m @ [movq (R r) (S i)]"
  by (simp add: Unspill_def)



























subsection \<open>The function prologue\<close>





subsection \<open>Object and array literals\<close>





subsection \<open>The root context\<close>




subsection \<open>Loop control outside a loop\<close>




end
